theory Spec2Isabelle
  imports Main "HOL-Library.Word"
begin

section \<open>Machine integers and the value types of the SSDP messages\<close>

text \<open>
  \<^verbatim>\<open>qint32\<close> and \<^verbatim>\<open>quint32\<close> are 32-bit words. The source compares \<^verbatim>\<open>qint32\<close>
  values as signed numbers (\<open><s\<close>) and \<^verbatim>\<open>quint32\<close> values as unsigned ones (\<open><\<close>).
\<close>

type_synonym qint32 = "32 word"
type_synonym quint32 = "32 word"

text \<open>
  Modelled from the spec: the resource type \<^verbatim>\<open>scheme:domain:kind:name:version\<close>, whose
  class (hresourcetype.h) is not among the sources.
\<close>

record HResourceType =
  rt_scheme :: string
  rt_domain :: string
  rt_kind :: string
  rt_name :: string
  rt_version :: nat

text \<open>
  Modelled from the spec: the discovery type (hdiscoverytype.h is not among the sources), a
  tagged variant \<^emph>\<open>RootDevice\<close>, \<^emph>\<open>SpecificDevice(UDN)\<close>, \<^emph>\<open>DeviceType(ResourceType, UDN)\<close>,
  \<^emph>\<open>ServiceType(ResourceType, UDN)\<close>, \<^emph>\<open>Undefined\<close>. The messages only ask for its tag,
  \<^verbatim>\<open>usn.type()\<close>, and compare two of them with \<^verbatim>\<open>==\<close>. A default-constructed discovery
  type is the undefined one.
\<close>

datatype HDiscoveryType =
    UndefinedType
  | RootDeviceType
  | SpecificDeviceType string
  | DeviceTypeType HResourceType string
  | ServiceTypeType HResourceType string

datatype HDiscoveryType_Type = Undefined | RootDevice | SpecificDevice | DeviceType | ServiceType

fun usn_type :: "HDiscoveryType \<Rightarrow> HDiscoveryType_Type" where
  "usn_type UndefinedType = Undefined"
| "usn_type RootDeviceType = RootDevice"
| "usn_type (SpecificDeviceType udn) = SpecificDevice"
| "usn_type (DeviceTypeType rt udn) = DeviceType"
| "usn_type (ServiceTypeType rt udn) = ServiceType"

definition HDiscoveryType_default :: HDiscoveryType where
  "HDiscoveryType_default = UndefinedType"

text \<open>
  The product tokens (hproduct_tokens.h is not among the sources) are taken as what the
  messages observe of them: the result of \<^verbatim>\<open>isValid()\<close>, the minor version of the UPnP
  token, \<^verbatim>\<open>upnpToken().minorVersion()\<close>, and the text of the tokens.
\<close>

record HProductTokens =
  tokens_isValid :: bool
  upnpToken_minorVersion :: qint32
  tokens_toString :: string

definition HProductTokens_default :: HProductTokens where
  "HProductTokens_default =
     \<lparr>tokens_isValid = False, upnpToken_minorVersion = - 1, tokens_toString = ''''\<rparr>"

text \<open>
  \<^verbatim>\<open>QUrl\<close> is Qt's; the constructors observe \<^verbatim>\<open>isValid()\<close> and \<^verbatim>\<open>isEmpty()\<close>.
\<close>

record QUrl =
  url_isValid :: bool
  url_isEmpty :: bool
  url_toString :: string

definition QUrl_default :: QUrl where
  "QUrl_default = \<lparr>url_isValid = False, url_isEmpty = True, url_toString = ''''\<rparr>"

text \<open>
  Modelled from the spec: the endpoint, an IPv4 address and a port (hendpoint.h is not among
  the sources). \<^verbatim>\<open>HEndpoint(0)\<close> is the endpoint of address 0 and port 0.
\<close>

record HEndpoint =
  ep_hostAddress :: "32 word"
  ep_portNumber :: "16 word"

definition HEndpoint_zero :: HEndpoint where
  "HEndpoint_zero = \<lparr>ep_hostAddress = 0, ep_portNumber = 0\<rparr>"

text \<open>A \<^verbatim>\<open>QDateTime\<close> is a number of milliseconds, or null when default-constructed.\<close>

type_synonym QDateTime = "int option"

section \<open>HResourceAvailable\<close>

record HResourceAvailablePrivate =
  av_m_serverTokens :: HProductTokens
  av_m_usn :: HDiscoveryType
  av_m_location :: QUrl
  av_m_cacheControlMaxAge :: qint32
  av_m_bootId :: qint32
  av_m_configId :: qint32
  av_m_searchPort :: qint32

definition HResourceAvailablePrivate_new :: HResourceAvailablePrivate where
  "HResourceAvailablePrivate_new =
     \<lparr>av_m_serverTokens = HProductTokens_default, av_m_usn = HDiscoveryType_default,
      av_m_location = QUrl_default, av_m_cacheControlMaxAge = 0,
      av_m_bootId = 0, av_m_configId = 0, av_m_searchPort = 0\<rparr>"

text \<open>
  The validating constructor. Every \<^verbatim>\<open>return\<close> before the assignments leaves the
  freshly allocated private object as it is.
\<close>

definition HResourceAvailable ::
  "quint32 \<Rightarrow> QUrl \<Rightarrow> HProductTokens \<Rightarrow> HDiscoveryType \<Rightarrow> qint32 \<Rightarrow> qint32 \<Rightarrow> qint32
     \<Rightarrow> HResourceAvailablePrivate" where
  "HResourceAvailable cacheControlMaxAge location serverTokens usn bootId configId searchPort =
     (let h_ptr = HResourceAvailablePrivate_new;
          cacheControlMaxAge1 =
            (if cacheControlMaxAge < 5 then 5
             else if 60 * 60 * 24 < cacheControlMaxAge then 60 * 60 * 24
             else cacheControlMaxAge)
      in if usn_type usn = Undefined then h_ptr
         else if \<not> url_isValid location \<or> url_isEmpty location then h_ptr
         else if 0 <s upnpToken_minorVersion serverTokens then
           (if bootId <s 0 \<or> configId <s 0 then h_ptr
            else
              let searchPort1 =
                    (if searchPort <s 49152 \<or> 65535 <s searchPort then - 1 else searchPort)
              in h_ptr\<lparr>av_m_serverTokens := serverTokens, av_m_usn := usn,
                       av_m_location := location, av_m_cacheControlMaxAge := cacheControlMaxAge1,
                       av_m_configId := configId, av_m_bootId := bootId,
                       av_m_searchPort := searchPort1\<rparr>)
         else
           h_ptr\<lparr>av_m_serverTokens := serverTokens, av_m_usn := usn,
                   av_m_location := location, av_m_cacheControlMaxAge := cacheControlMaxAge1,
                   av_m_configId := configId, av_m_bootId := bootId,
                   av_m_searchPort := - 1\<rparr>)"

definition HResourceAvailable_isValid :: "HResourceAvailablePrivate \<Rightarrow> bool \<Rightarrow> bool" where
  "HResourceAvailable_isValid h_ptr strict =
     (usn_type (av_m_usn h_ptr) \<noteq> Undefined \<and>
      (if strict then tokens_isValid (av_m_serverTokens h_ptr) else True))"

section \<open>HResourceUnavailable\<close>

record HResourceUnavailablePrivate =
  un_m_usn :: HDiscoveryType
  un_m_bootId :: qint32
  un_m_configId :: qint32
  un_m_sourceLocation :: HEndpoint

definition HResourceUnavailablePrivate_new :: HResourceUnavailablePrivate where
  "HResourceUnavailablePrivate_new =
     \<lparr>un_m_usn = HDiscoveryType_default, un_m_bootId = 0, un_m_configId = 0,
      un_m_sourceLocation = HEndpoint_zero\<rparr>"

definition HResourceUnavailable ::
  "HDiscoveryType \<Rightarrow> HEndpoint \<Rightarrow> qint32 \<Rightarrow> qint32 \<Rightarrow> HResourceUnavailablePrivate" where
  "HResourceUnavailable usn sourceLocation bootId configId =
     (let h_ptr = HResourceUnavailablePrivate_new
      in if usn_type usn = Undefined then h_ptr
         else if (bootId <s 0 \<and> 0 \<le>s configId) \<or> (configId <s 0 \<and> 0 \<le>s bootId) then h_ptr
         else
           let bootId1 = (if bootId <s 0 then - 1 else bootId);
               configId1 = (if bootId <s 0 then - 1 else configId)
           in h_ptr\<lparr>un_m_usn := usn, un_m_configId := configId1, un_m_bootId := bootId1,
                    un_m_sourceLocation := sourceLocation\<rparr>)"

definition HResourceUnavailable_isValid :: "HResourceUnavailablePrivate \<Rightarrow> bool \<Rightarrow> bool" where
  "HResourceUnavailable_isValid h_ptr strict = (usn_type (un_m_usn h_ptr) \<noteq> Undefined)"

section \<open>HResourceUpdate\<close>

record HResourceUpdatePrivate =
  up_m_usn :: HDiscoveryType
  up_m_location :: QUrl
  up_m_bootId :: qint32
  up_m_configId :: qint32
  up_m_nextBootId :: qint32
  up_m_searchPort :: qint32

definition HResourceUpdatePrivate_new :: HResourceUpdatePrivate where
  "HResourceUpdatePrivate_new =
     \<lparr>up_m_usn = HDiscoveryType_default, up_m_location = QUrl_default, up_m_bootId = 0,
      up_m_configId = 0, up_m_nextBootId = 0, up_m_searchPort = 0\<rparr>"

definition HResourceUpdate ::
  "QUrl \<Rightarrow> HDiscoveryType \<Rightarrow> qint32 \<Rightarrow> qint32 \<Rightarrow> qint32 \<Rightarrow> qint32 \<Rightarrow> HResourceUpdatePrivate" where
  "HResourceUpdate location usn bootId configId nextBootId searchPort =
     (let h_ptr = HResourceUpdatePrivate_new
      in if usn_type usn = Undefined then h_ptr
         else if \<not> url_isValid location then h_ptr
         else if (bootId <s 0 \<and> (0 \<le>s configId \<or> 0 \<le>s nextBootId)) \<or>
                 (configId <s 0 \<and> (0 \<le>s bootId \<or> 0 \<le>s nextBootId)) \<or>
                 (nextBootId <s 0 \<and> (0 \<le>s bootId \<or> 0 \<le>s configId)) then h_ptr
         else if bootId <s 0 then
           h_ptr\<lparr>up_m_usn := usn, up_m_location := location, up_m_configId := - 1,
                   up_m_bootId := - 1, up_m_nextBootId := - 1, up_m_searchPort := - 1\<rparr>
         else if searchPort <s 49152 \<or> 65535 <s searchPort then
           h_ptr\<lparr>up_m_usn := usn, up_m_location := location, up_m_configId := configId,
                   up_m_bootId := bootId, up_m_nextBootId := nextBootId, up_m_searchPort := - 1\<rparr>
         else
           h_ptr\<lparr>up_m_usn := usn, up_m_location := location, up_m_configId := configId,
                   up_m_bootId := bootId, up_m_nextBootId := nextBootId,
                   up_m_searchPort := searchPort\<rparr>)"

definition HResourceUpdate_isValid :: "HResourceUpdatePrivate \<Rightarrow> bool \<Rightarrow> bool" where
  "HResourceUpdate_isValid h_ptr strict = (usn_type (up_m_usn h_ptr) \<noteq> Undefined)"

text \<open>\<^verbatim>\<open>operator==\<close> of two updates: five of the six fields are compared.\<close>

definition HResourceUpdate_eq :: "HResourceUpdatePrivate \<Rightarrow> HResourceUpdatePrivate \<Rightarrow> bool" where
  "HResourceUpdate_eq obj1 obj2 =
     (up_m_usn obj1 = up_m_usn obj2 \<and>
      up_m_location obj1 = up_m_location obj2 \<and>
      up_m_bootId obj1 = up_m_bootId obj2 \<and>
      up_m_configId obj1 = up_m_configId obj2 \<and>
      up_m_searchPort obj1 = up_m_searchPort obj2)"

section \<open>HDiscoveryRequest\<close>

record HDiscoveryRequestPrivate =
  rq_m_st :: HDiscoveryType
  rq_m_mx :: qint32
  rq_m_userAgent :: HProductTokens

definition HDiscoveryRequestPrivate_new :: HDiscoveryRequestPrivate where
  "HDiscoveryRequestPrivate_new =
     \<lparr>rq_m_st = HDiscoveryType_default, rq_m_mx = 0, rq_m_userAgent = HProductTokens_default\<rparr>"

text \<open>
  \<^verbatim>\<open>HDiscoveryRequestPrivate::init\<close> returns whether it accepted the arguments, and the
  private object as it has left it.
\<close>

definition init ::
  "HDiscoveryRequestPrivate \<Rightarrow> HDiscoveryType \<Rightarrow> qint32 \<Rightarrow> HProductTokens
     \<Rightarrow> bool \<times> HDiscoveryRequestPrivate" where
  "init this st mx userAgent =
     (if usn_type st = Undefined then (False, this)
      else if mx <s 1 then (False, this)
      else
        let mx1 = (if 5 <s mx then 5 else mx)
        in (True, this\<lparr>rq_m_st := st, rq_m_mx := mx1, rq_m_userAgent := userAgent\<rparr>))"

definition HDiscoveryRequest ::
  "qint32 \<Rightarrow> HDiscoveryType \<Rightarrow> HProductTokens \<Rightarrow> HDiscoveryRequestPrivate" where
  "HDiscoveryRequest mx st userAgent = snd (init HDiscoveryRequestPrivate_new st mx userAgent)"

definition HDiscoveryRequest_isValid :: "HDiscoveryRequestPrivate \<Rightarrow> bool \<Rightarrow> bool" where
  "HDiscoveryRequest_isValid h_ptr strict =
     (usn_type (rq_m_st h_ptr) \<noteq> Undefined \<and>
      (if strict then tokens_isValid (rq_m_userAgent h_ptr) else True))"

section \<open>HDiscoveryResponse\<close>

record HDiscoveryResponsePrivate =
  rs_m_serverTokens :: HProductTokens
  rs_m_usn :: HDiscoveryType
  rs_m_location :: QUrl
  rs_m_date :: QDateTime
  rs_m_cacheControlMaxAge :: qint32
  rs_m_bootId :: qint32
  rs_m_configId :: qint32
  rs_m_searchPort :: qint32

definition HDiscoveryResponsePrivate_new :: HDiscoveryResponsePrivate where
  "HDiscoveryResponsePrivate_new =
     \<lparr>rs_m_serverTokens = HProductTokens_default, rs_m_usn = HDiscoveryType_default,
      rs_m_location = QUrl_default, rs_m_date = None, rs_m_cacheControlMaxAge = 0,
      rs_m_bootId = 0, rs_m_configId = 0, rs_m_searchPort = 0\<rparr>"

text \<open>
  The constructor ignores its \<^verbatim>\<open>date\<close> argument and stores the current time, here the
  argument \<open>currentDateTime\<close>. The search port is stored as it was given.
\<close>

definition HDiscoveryResponse ::
  "int \<Rightarrow> quint32 \<Rightarrow> QDateTime \<Rightarrow> QUrl \<Rightarrow> HProductTokens \<Rightarrow> HDiscoveryType
     \<Rightarrow> qint32 \<Rightarrow> qint32 \<Rightarrow> qint32 \<Rightarrow> HDiscoveryResponsePrivate" where
  "HDiscoveryResponse currentDateTime cacheControlMaxAge date location serverTokens usn
       bootId configId searchPort =
     (let h_ptr = HDiscoveryResponsePrivate_new;
          cacheControlMaxAge1 =
            (if cacheControlMaxAge < 5 then 5
             else if 60 * 60 * 24 < cacheControlMaxAge then 60 * 60 * 24
             else cacheControlMaxAge);
          assigned =
            h_ptr\<lparr>rs_m_serverTokens := serverTokens, rs_m_usn := usn, rs_m_location := location,
                    rs_m_date := Some currentDateTime,
                    rs_m_cacheControlMaxAge := cacheControlMaxAge1,
                    rs_m_bootId := bootId, rs_m_configId := configId,
                    rs_m_searchPort := searchPort\<rparr>
      in if usn_type usn = Undefined then h_ptr
         else if \<not> url_isValid location then h_ptr
         else if 0 <s upnpToken_minorVersion serverTokens then
           (if bootId <s 0 \<or> configId <s 0 then h_ptr else assigned)
         else assigned)"

definition HDiscoveryResponse_isValid :: "HDiscoveryResponsePrivate \<Rightarrow> bool \<Rightarrow> bool" where
  "HDiscoveryResponse_isValid h_ptr strict =
     (usn_type (rs_m_usn h_ptr) \<noteq> Undefined \<and>
      (if strict then tokens_isValid (rs_m_serverTokens h_ptr) else True))"

text \<open>The clamp of the specification: \<open>x\<close> limited to the interval from \<open>lo\<close> to \<open>hi\<close>.\<close>

definition clamp :: "int \<Rightarrow> int \<Rightarrow> int \<Rightarrow> int" where
  "clamp x lo hi = max lo (min hi x)"

section \<open>Strings of Qt\<close>

text \<open>
  \<^verbatim>\<open>QString\<close> is Qt's. A string is a list of characters, each a code point below 256.
  \<^verbatim>\<open>QChar::toLower\<close> on that range moves the capital letters, ASCII and Latin-1, 32 places
  up; case folding agrees with it except on the micro sign, which folds to the Greek mu.
  Both are given as the code point of the result.
\<close>

definition toLower :: "char \<Rightarrow> nat" where
  "toLower c =
     (let u = (of_char c :: nat)
      in if (65 \<le> u \<and> u \<le> 90) \<or> (192 \<le> u \<and> u \<le> 222 \<and> u \<noteq> 215)
         then u + 32 else u)"

definition foldCase :: "char \<Rightarrow> nat" where
  "foldCase c = (if (of_char c :: nat) = 181 then 956 else toLower c)"

text \<open>
  The comparison of two sequences of code units: negative, zero or positive as the first
  is before, equal to or after the second.
\<close>

fun ucstrcmp :: "nat list \<Rightarrow> nat list \<Rightarrow> int" where
  "ucstrcmp [] [] = 0"
| "ucstrcmp [] (b # bs) = - 1"
| "ucstrcmp (a # as) [] = 1"
| "ucstrcmp (a # as) (b # bs) = (if a = b then ucstrcmp as bs else int a - int b)"

text \<open>
  \<^verbatim>\<open>enum CaseSensitivity { CaseInsensitive, CaseSensitive }\<close> of the namespace \<^verbatim>\<open>Qt\<close>:
  the enumerators have the values 0 and 1.
\<close>

datatype CaseSensitivity = CaseInsensitive | CaseSensitive

fun CaseSensitivity_value :: "CaseSensitivity \<Rightarrow> int" where
  "CaseSensitivity_value CaseInsensitive = 0"
| "CaseSensitivity_value CaseSensitive = 1"

text \<open>
  \<^verbatim>\<open>QString::compare(other, cs)\<close>; the overload with one argument is
  \<open>compare s other CaseSensitive\<close>.
\<close>

definition compare :: "string \<Rightarrow> string \<Rightarrow> CaseSensitivity \<Rightarrow> int" where
  "compare s other cs =
     (case cs of
        CaseSensitive \<Rightarrow> ucstrcmp (map of_char s) (map of_char other)
      | CaseInsensitive \<Rightarrow> ucstrcmp (map foldCase s) (map foldCase other))"

text \<open>\<^verbatim>\<open>QString::indexOf\<close>: the position of the first occurrence, or -1.\<close>

fun indexOf_from :: "string \<Rightarrow> char \<Rightarrow> int \<Rightarrow> int" where
  "indexOf_from [] c i = - 1"
| "indexOf_from (x # xs) c i = (if x = c then i else indexOf_from xs c (i + 1))"

definition indexOf :: "string \<Rightarrow> char \<Rightarrow> int" where
  "indexOf s c = indexOf_from s c 0"

text \<open>\<^verbatim>\<open>QString::mid(position)\<close>, for a position that is not negative.\<close>

definition mid :: "string \<Rightarrow> int \<Rightarrow> string" where
  "mid s position = drop (nat position) s"

text \<open>
  \<^verbatim>\<open>QString::simplified\<close>: white space is removed from both ends and every run of it inside
  becomes one space.
\<close>

definition isSpace :: "char \<Rightarrow> bool" where
  "isSpace c =
     (let u = (of_char c :: nat) in u = 32 \<or> (9 \<le> u \<and> u \<le> 13) \<or> u = 133 \<or> u = 160)"

fun simplified_words :: "string \<Rightarrow> string \<Rightarrow> string list" where
  "simplified_words [] w = (if w = [] then [] else [w])"
| "simplified_words (c # cs) w =
     (if isSpace c then (if w = [] then simplified_words cs [] else w # simplified_words cs [])
      else simplified_words cs (w @ [c]))"

fun join_words :: "string list \<Rightarrow> string" where
  "join_words [] = []"
| "join_words [w] = w"
| "join_words (w # ws) = w @ CHR '' '' # join_words ws"

definition simplified :: "string \<Rightarrow> string" where
  "simplified s = join_words (simplified_words s [])"

section \<open>The HTTP server\<close>

text \<open>
  The request header as the server reads it: whether it parsed (\<^verbatim>\<open>isValid()\<close>), the method
  and the path of the start line, and the header fields in the order received.
\<close>

record QHttpRequestHeader =
  hdr_isValid :: bool
  hdr_method :: string
  hdr_path :: string
  hdr_values :: "(string \<times> string) list"

text \<open>
  \<^verbatim>\<open>QHttpHeader::value(key)\<close> is the value of the first field whose name is the key, letter
  case apart, and the empty string when there is none; \<^verbatim>\<open>hasKey\<close> tells whether there is one.
\<close>

fun value_of :: "(string \<times> string) list \<Rightarrow> string \<Rightarrow> string" where
  "value_of [] key = []"
| "value_of ((k, v) # rest) key =
     (if map toLower k = map toLower key then v else value_of rest key)"

definition header_value :: "QHttpRequestHeader \<Rightarrow> string \<Rightarrow> string" where
  "header_value hdr key = value_of (hdr_values hdr) key"

fun hasKey_in :: "(string \<times> string) list \<Rightarrow> string \<Rightarrow> bool" where
  "hasKey_in [] key = False"
| "hasKey_in ((k, v) # rest) key =
     (if map toLower k = map toLower key then True else hasKey_in rest key)"

definition hasKey :: "QHttpRequestHeader \<Rightarrow> string \<Rightarrow> bool" where
  "hasKey hdr key = hasKey_in (hdr_values hdr) key"

text \<open>
  \<^verbatim>\<open>HHttpHandler::ReturnValue\<close> is declared outside the sources; the server tells
  \<^verbatim>\<open>Success\<close> and \<^verbatim>\<open>Timeout\<close> from every other value, here \<open>Failed\<close>.
\<close>

datatype ReturnValue = Success | Timeout | Failed

datatype StatusCode = BadRequest | MethotNotAllowed

record MessagingInfo =
  mi_hostInfo :: string
  mi_keepAlive :: bool

text \<open>The virtual functions a subclass of the server may override.\<close>

datatype Hook =
    incomingSubscriptionRequest
  | incomingUnsubscriptionRequest
  | incomingControlRequest
  | incomingNotifyMessage
  | incomingUnknownHeadRequest
  | incomingUnknownGetRequest
  | incomingUnknownPostRequest

datatype Handler = Get | Head | Post | NotifyMessage | Subscription | Unsubscription

text \<open>
  What the server does that a peer or a subclass can see: a response sent with
  \<^verbatim>\<open>m_httpHandler.send\<close>, a \<^verbatim>\<open>process...\<close> function entered, a virtual function called, and
  the calls that end the connection.
\<close>

datatype Event =
    Send StatusCode
  | Process Handler
  | Call Hook
  | WaitForBytesWritten
  | DisconnectFromHost

datatype HException = HException

text \<open>
  What an overriding implementation of a virtual function does to the server's loop: it
  throws, it leaves \<^verbatim>\<open>mi.keepAlive\<close> alone, or it sets it.
\<close>

datatype HookEffect = Throws | Keeps | SetsKeepAlive bool

text \<open>
  One turn of the loop of \<^verbatim>\<open>processRequest\<close> reads the following from its environment:
  the flag \<^verbatim>\<open>m_exiting\<close>, the state of the socket and the clock at the test of the loop;
  the result of \<^verbatim>\<open>m_httpHandler.receive\<close> with the header and the body it has filled in;
  \<^verbatim>\<open>HHttpUtils::keepAlive(requestHeader)\<close>; \<^verbatim>\<open>m_exiting\<close> again; whether
  \<^verbatim>\<open>QtSoapMessage::setContent\<close> accepts the body; the two results of the typed
  \<^verbatim>\<open>m_httpHandler.receive\<close> of a subscription, unsubscription or notification; the effect
  of an overriding virtual function; and the clock when the turn ends.
\<close>

record Turn =
  exiting_at_test :: bool
  state_connected :: bool
  clock_at_test :: int
  rv :: ReturnValue
  requestHeader :: QHttpRequestHeader
  body :: string
  keepAlive_of_header :: bool
  exiting_after_receive :: bool
  soap_setContent :: bool
  typed_rv :: ReturnValue
  typed_retval_success :: bool
  hook_effect :: HookEffect
  clock_at_end :: int

text \<open>
  A call of a virtual function. The implementations of the server itself all set
  \<^verbatim>\<open>keepAlive\<close> to false and answer \<^verbatim>\<open>MethotNotAllowed\<close>.
\<close>

definition call_hook ::
  "(Hook \<Rightarrow> bool) \<Rightarrow> Turn \<Rightarrow> Hook \<Rightarrow> MessagingInfo
     \<Rightarrow> Event list \<times> (HException + MessagingInfo)" where
  "call_hook overridden t h mi =
     (if overridden h then
        (case hook_effect t of
           Throws \<Rightarrow> ([Call h], Inl HException)
         | Keeps \<Rightarrow> ([Call h], Inr mi)
         | SetsKeepAlive b \<Rightarrow> ([Call h], Inr (mi\<lparr>mi_keepAlive := b\<rparr>)))
      else ([Call h, Send MethotNotAllowed], Inr (mi\<lparr>mi_keepAlive := False\<rparr>)))"

definition entered ::
  "Handler \<Rightarrow> Event list \<times> (HException + MessagingInfo)
     \<Rightarrow> Event list \<times> (HException + MessagingInfo)" where
  "entered p r = (Process p # fst r, snd r)"

definition processGet ::
  "(Hook \<Rightarrow> bool) \<Rightarrow> Turn \<Rightarrow> MessagingInfo \<Rightarrow> Event list \<times> (HException + MessagingInfo)" where
  "processGet overridden t mi = entered Get (call_hook overridden t incomingUnknownGetRequest mi)"

definition processHead ::
  "(Hook \<Rightarrow> bool) \<Rightarrow> Turn \<Rightarrow> MessagingInfo \<Rightarrow> Event list \<times> (HException + MessagingInfo)" where
  "processHead overridden t mi =
     entered Head (call_hook overridden t incomingUnknownHeadRequest mi)"

definition processPost ::
  "(Hook \<Rightarrow> bool) \<Rightarrow> Turn \<Rightarrow> MessagingInfo \<Rightarrow> Event list \<times> (HException + MessagingInfo)" where
  "processPost overridden t mi =
     entered Post
       (let soapAction = header_value (requestHeader t) ''SOAPACTION''
        in if indexOf soapAction (CHR ''#'') \<le> 0
           then call_hook overridden t incomingUnknownPostRequest mi
           else
             let actionName = mid soapAction (indexOf soapAction (CHR ''#''))
             in if actionName = [] then call_hook overridden t incomingUnknownPostRequest mi
                else if \<not> soap_setContent t
                  then ([Send BadRequest], Inr (mi\<lparr>mi_keepAlive := False\<rparr>))
                else
                  let controlUrl = simplified (hdr_path (requestHeader t))
                  in if controlUrl = []
                     then ([Send BadRequest], Inr (mi\<lparr>mi_keepAlive := False\<rparr>))
                     else call_hook overridden t incomingControlRequest mi)"

definition process_typed ::
  "(Hook \<Rightarrow> bool) \<Rightarrow> Turn \<Rightarrow> Hook \<Rightarrow> MessagingInfo
     \<Rightarrow> Event list \<times> (HException + MessagingInfo)" where
  "process_typed overridden t h mi =
     (if typed_rv t \<noteq> Success then ([], Inr mi)
      else if typed_retval_success t then call_hook overridden t h mi
      else ([], Inr mi))"

definition processSubscription ::
  "(Hook \<Rightarrow> bool) \<Rightarrow> Turn \<Rightarrow> MessagingInfo \<Rightarrow> Event list \<times> (HException + MessagingInfo)" where
  "processSubscription overridden t mi =
     entered Subscription (process_typed overridden t incomingSubscriptionRequest mi)"

definition processUnsubscription ::
  "(Hook \<Rightarrow> bool) \<Rightarrow> Turn \<Rightarrow> MessagingInfo \<Rightarrow> Event list \<times> (HException + MessagingInfo)" where
  "processUnsubscription overridden t mi =
     entered Unsubscription (process_typed overridden t incomingUnsubscriptionRequest mi)"

definition processNotifyMessage ::
  "(Hook \<Rightarrow> bool) \<Rightarrow> Turn \<Rightarrow> MessagingInfo \<Rightarrow> Event list \<times> (HException + MessagingInfo)" where
  "processNotifyMessage overridden t mi =
     entered NotifyMessage (process_typed overridden t incomingNotifyMessage mi)"

text \<open>
  The comma operator of C++ evaluates its left operand, drops the value and yields the right
  one; a condition of integer or enumeration type holds when the value is not zero.
\<close>

definition comma :: "'a \<Rightarrow> 'b \<Rightarrow> 'b" where
  "comma a b = b"

text \<open>
  The \<^verbatim>\<open>try\<close> block of \<^verbatim>\<open>processRequest\<close>: the chain of comparisons of the method. The
  second condition is \<^verbatim>\<open>(method.compare("HEAD"), Qt::CaseInsensitive)\<close>. The last branch
  answers \<^verbatim>\<open>MethotNotAllowed\<close> and leaves the loop.
\<close>

datatype Dispatched = Returned "HException + MessagingInfo" | NotAllowed

definition dispatch ::
  "(Hook \<Rightarrow> bool) \<Rightarrow> Turn \<Rightarrow> MessagingInfo \<Rightarrow> Event list \<times> Dispatched" where
  "dispatch overridden t mi =
     (let method = hdr_method (requestHeader t)
      in if compare method ''GET'' CaseInsensitive = 0
           then map_prod id Returned (processGet overridden t mi)
         else if CaseSensitivity_value
                   (comma (compare method ''HEAD'' CaseSensitive) CaseInsensitive) \<noteq> 0
           then map_prod id Returned (processHead overridden t mi)
         else if compare method ''POST'' CaseInsensitive = 0
           then map_prod id Returned (processPost overridden t mi)
         else if compare method ''NOTIFY'' CaseInsensitive = 0
           then map_prod id Returned (processNotifyMessage overridden t mi)
         else if compare method ''SUBSCRIBE'' CaseInsensitive = 0
           then map_prod id Returned (processSubscription overridden t mi)
         else if compare method ''UNSUBSCRIBE'' CaseInsensitive = 0
           then map_prod id Returned (processUnsubscription overridden t mi)
         else ([Send MethotNotAllowed], NotAllowed))"

text \<open>
  The body of the loop for one turn: the events, and how the turn leaves the body:
  by \<^verbatim>\<open>break\<close>, by \<^verbatim>\<open>continue\<close> after a timeout, or at its end, where the stop watch is
  started again.
\<close>

datatype LoopCtl = Break | Continue | Next

definition iteration :: "(Hook \<Rightarrow> bool) \<Rightarrow> Turn \<Rightarrow> Event list \<times> LoopCtl" where
  "iteration overridden t =
     (if rv t = Timeout then ([], Continue)
      else if rv t \<noteq> Success then ([], Break)
      else if \<not> hdr_isValid (requestHeader t) then ([Send BadRequest], Break)
      else
        let host = header_value (requestHeader t) ''HOST''
        in if host = [] then ([Send BadRequest], Break)
           else
             let mi = \<lparr>mi_hostInfo = host, mi_keepAlive = keepAlive_of_header t\<rparr>
             in if exiting_after_receive t then ([], Break)
                else
                  (case dispatch overridden t mi of
                     (evs, NotAllowed) \<Rightarrow> (evs, Break)
                   | (evs, Returned (Inl ex)) \<Rightarrow> (evs, Break)
                   | (evs, Returned (Inr mi1)) \<Rightarrow>
                       if \<not> mi_keepAlive mi1 then (evs, Break) else (evs, Next)))"

text \<open>
  The loop over the turns the environment provides. The test of the loop reads the turn;
  when it fails the loop ends without receiving. \<open>None\<close>: the loop would go on beyond the
  turns given.
\<close>

fun processRequest_loop :: "(Hook \<Rightarrow> bool) \<Rightarrow> int \<Rightarrow> Turn list \<Rightarrow> Event list option" where
  "processRequest_loop overridden started [] = None"
| "processRequest_loop overridden started (t # turns) =
     (if \<not> (\<not> exiting_at_test t \<and> state_connected t \<and> clock_at_test t - started < 30000)
      then Some []
      else
        (case iteration overridden t of
           (evs, Break) \<Rightarrow> Some evs
         | (evs, Continue) \<Rightarrow>
             map_option (append evs) (processRequest_loop overridden started turns)
         | (evs, Next) \<Rightarrow>
             map_option (append evs) (processRequest_loop overridden (clock_at_end t) turns)))"

text \<open>
  After the loop a socket that is still connected is flushed, at most 1000 times and as
  long as \<^verbatim>\<open>flush()\<close> succeeds, and disconnected.
\<close>

definition closing :: "bool \<Rightarrow> nat \<Rightarrow> Event list" where
  "closing connected_after flushes =
     (if connected_after
      then replicate (min 1000 flushes) WaitForBytesWritten @ [DisconnectFromHost]
      else [])"

definition processRequest ::
  "(Hook \<Rightarrow> bool) \<Rightarrow> int \<Rightarrow> Turn list \<Rightarrow> bool \<Rightarrow> nat \<Rightarrow> Event list option" where
  "processRequest overridden started turns connected_after flushes =
     (case processRequest_loop overridden started turns of
        None \<Rightarrow> None
      | Some evs \<Rightarrow> Some (evs @ closing connected_after flushes))"

text \<open>
  The methods the specification names, compared as the server compares them, letter case
  apart.
\<close>

definition is_named_method :: "string \<Rightarrow> bool" where
  "is_named_method method =
     (compare method ''GET'' CaseInsensitive = 0 \<or>
      compare method ''HEAD'' CaseInsensitive = 0 \<or>
      compare method ''POST'' CaseInsensitive = 0 \<or>
      compare method ''NOTIFY'' CaseInsensitive = 0 \<or>
      compare method ''SUBSCRIBE'' CaseInsensitive = 0 \<or>
      compare method ''UNSUBSCRIBE'' CaseInsensitive = 0)"

section \<open>The queue of invocations of an action proxy\<close>

text \<open>
  Modelled from the spec: the member functions \<^verbatim>\<open>beginInvoke\<close>, \<^verbatim>\<open>send\<close> and
  \<^verbatim>\<open>invokeCompleted\<close> of the action proxy and of its owner are defined outside the sources,
  which hold the class declarations only. From the declarations: the pending reply
  \<^verbatim>\<open>m_reply\<close>, the queue \<^verbatim>\<open>m_invocations\<close>, \<^verbatim>\<open>invocationInProgress()\<close>, which is
  \<^verbatim>\<open>m_reply\<close> read as a truth value, \<^verbatim>\<open>deleteReply()\<close> and \<^verbatim>\<open>invocationDone\<close>, which
  deletes the reply and calls \<^verbatim>\<open>invokeCompleted\<close> of the owner. From the specification:
  an invocation submitted while another is in progress is appended to the queue, otherwise
  it is sent; when an invocation completes, the head of the queue, if any, is sent.

  An invocation is a number. The record keeps, next to the two members, the log of the
  control connection: what was sent and which replies have finished, oldest first.
\<close>

datatype WireEvent = Sent nat | Done nat

record HActionProxy_state =
  m_reply :: "nat option"
  m_invocations :: "nat list"
  wire :: "WireEvent list"

definition HActionProxy_new :: HActionProxy_state where
  "HActionProxy_new = \<lparr>m_reply = None, m_invocations = [], wire = []\<rparr>"

definition invocationInProgress :: "HActionProxy_state \<Rightarrow> bool" where
  "invocationInProgress s = (m_reply s \<noteq> None)"

definition deleteReply :: "HActionProxy_state \<Rightarrow> HActionProxy_state" where
  "deleteReply s = (if m_reply s \<noteq> None then s\<lparr>m_reply := None\<rparr> else s)"

definition send :: "HActionProxy_state \<Rightarrow> nat \<Rightarrow> HActionProxy_state" where
  "send s iv = s\<lparr>m_reply := Some iv, wire := wire s @ [Sent iv]\<rparr>"

definition beginInvoke :: "HActionProxy_state \<Rightarrow> nat \<Rightarrow> HActionProxy_state" where
  "beginInvoke s iv =
     (if invocationInProgress s then s\<lparr>m_invocations := m_invocations s @ [iv]\<rparr>
      else send s iv)"

definition invokeCompleted :: "HActionProxy_state \<Rightarrow> HActionProxy_state" where
  "invokeCompleted s =
     (case m_invocations s of
        [] \<Rightarrow> s
      | iv # waiting \<Rightarrow> send (s\<lparr>m_invocations := waiting\<rparr>) iv)"

definition invocationDone :: "HActionProxy_state \<Rightarrow> HActionProxy_state" where
  "invocationDone s =
     (case m_reply s of
        None \<Rightarrow> invokeCompleted (deleteReply s)
      | Some iv \<Rightarrow> invokeCompleted (deleteReply (s\<lparr>wire := wire s @ [Done iv]\<rparr>)))"

text \<open>
  What happens to a proxy: an invocation is submitted, or the pending reply finishes. The
  signal of a reply cannot arrive when there is no reply.
\<close>

datatype ProxyEvent = BeginInvoke nat | Finished

fun proxy_step :: "HActionProxy_state \<Rightarrow> ProxyEvent \<Rightarrow> HActionProxy_state" where
  "proxy_step s (BeginInvoke iv) = beginInvoke s iv"
| "proxy_step s Finished = (if invocationInProgress s then invocationDone s else s)"

definition proxy_run :: "ProxyEvent list \<Rightarrow> HActionProxy_state" where
  "proxy_run evs = foldl proxy_step HActionProxy_new evs"

text \<open>
  The invocations in flight after a log of the connection: sent, and the reply not yet
  finished.
\<close>

fun on_wire :: "nat list \<Rightarrow> WireEvent \<Rightarrow> nat list" where
  "on_wire fl (Sent iv) = fl @ [iv]"
| "on_wire fl (Done iv) = remove1 iv fl"

definition in_flight :: "WireEvent list \<Rightarrow> nat list" where
  "in_flight w = foldl on_wire [] w"

fun sent_of :: "WireEvent list \<Rightarrow> nat list" where
  "sent_of [] = []"
| "sent_of (Sent iv # w) = iv # sent_of w"
| "sent_of (Done iv # w) = sent_of w"

fun submitted :: "ProxyEvent list \<Rightarrow> nat list" where
  "submitted [] = []"
| "submitted (BeginInvoke iv # evs) = iv # submitted evs"
| "submitted (Finished # evs) = submitted evs"

definition proxy_inv :: "HActionProxy_state \<Rightarrow> bool" where
  "proxy_inv s =
     (in_flight (wire s) = (case m_reply s of None \<Rightarrow> [] | Some iv \<Rightarrow> [iv]) \<and>
      (\<forall>n. length (in_flight (take n (wire s))) \<le> 1) \<and>
      (m_reply s = None \<longrightarrow> m_invocations s = []))"

section \<open>Concrete messages and requests\<close>

definition upnp11_tokens :: HProductTokens where
  "upnp11_tokens =
     \<lparr>tokens_isValid = True, upnpToken_minorVersion = 1,
      tokens_toString = ''Linux/3.0 UPnP/1.1 HUPnP/0.9''\<rparr>"

definition some_location :: QUrl where
  "some_location =
     \<lparr>url_isValid = True, url_isEmpty = False,
      url_toString = ''http://192.0.2.10:49200/desc.xml''\<rparr>"

definition some_endpoint :: HEndpoint where
  "some_endpoint = \<lparr>ep_hostAddress = 3221225994, ep_portNumber = 1900\<rparr>"

definition no_overrides :: "Hook \<Rightarrow> bool" where
  "no_overrides h = False"

definition request_turn :: "bool \<Rightarrow> string \<Rightarrow> (string \<times> string) list \<Rightarrow> Turn" where
  "request_turn valid method header_fields =
     \<lparr>exiting_at_test = False, state_connected = True, clock_at_test = 0, rv = Success,
      requestHeader =
        \<lparr>hdr_isValid = valid, hdr_method = method, hdr_path = ''/desc.xml'',
         hdr_values = header_fields\<rparr>,
      body = [], keepAlive_of_header = True, exiting_after_receive = False,
      soap_setContent = False, typed_rv = Success, typed_retval_success = True,
      hook_effect = Keeps, clock_at_end = 5\<rparr>"

definition head_request :: Turn where
  "head_request = request_turn True ''HEAD'' [(''HOST'', ''192.0.2.10:49200'')]"

definition foo_request_without_host :: Turn where
  "foo_request_without_host = request_turn True ''FOO'' [(''Accept'', ''*/*'')]"

definition put_request :: Turn where
  "put_request = request_turn True ''PUT'' [(''Host'', ''192.0.2.10:49200'')]"

definition get_request_without_host :: Turn where
  "get_request_without_host = request_turn True ''GET'' [(''Accept'', ''*/*'')]"

definition ill_formed_request :: Turn where
  "ill_formed_request = request_turn False [] [(''HOST'', ''192.0.2.10:49200'')]"

section \<open>Facts about words, strings and headers\<close>

lemma sint_eq_uint_small:
  fixes x :: "32 word"
  assumes "uint x < 2 ^ 31"
  shows "sint x = uint x"
proof -
  have "sint x = signed_take_bit 31 (uint x)"
    by (simp add: sint_uint)
  also have "\<dots> = uint x"
  proof -
    have "(0::int) \<le> uint x" by simp
    moreover have "- (2 ^ 31) \<le> (0::int)" by simp
    ultimately have "- (2 ^ 31) \<le> uint x" by (rule order_trans [rotated])
    with assms show ?thesis by (simp add: signed_take_bit_int_eq_self_iff)
  qed
  finally show ?thesis .
qed

lemma max_age_clamp:
  fixes x :: "32 word"
  shows "sint (if x < 5 then 5 else if 60 * 60 * 24 < x then 60 * 60 * 24 else x)
           = clamp (uint x) 5 86400"
proof -
  consider (lo) "x < 5" | (hi) "\<not> x < 5" "86400 < x" | (mid) "\<not> x < 5" "\<not> 86400 < x"
    by blast
  then show ?thesis
  proof cases
    case lo
    then have "uint x < 5" by (simp add: word_less_def)
    with lo show ?thesis by (simp add: clamp_def)
  next
    case hi
    then have "86400 < uint x" by (simp add: word_less_def)
    with hi show ?thesis by (simp add: clamp_def)
  next
    case mid
    then have b: "5 \<le> uint x" "uint x \<le> 86400" by (simp_all add: word_less_def not_less)
    then have "sint x = uint x" by (intro sint_eq_uint_small) simp
    with mid b show ?thesis by (simp add: clamp_def)
  qed
qed

lemma ucstrcmp_eq_0: "ucstrcmp xs ys = 0 \<longleftrightarrow> xs = ys"
  by (induction xs ys rule: ucstrcmp.induct) auto

lemma value_of_without_key: "\<not> hasKey_in hs key \<Longrightarrow> value_of hs key = []"
  by (induction hs key rule: value_of.induct) (auto split: if_splits)

section \<open>The discovery messages\<close>

text \<open>
  C3, as the constructor has it. The specification's sentence, MX equal to
  \<open>clamp mx 1 5\<close> for every \<open>mx\<close>, fails below 1: \<^verbatim>\<open>init\<close> refuses such a value with the
  warning that MX cannot be smaller than 1 and assigns nothing, so the request
  keeps the MX 0 of the fresh object and is not valid.
\<close>

theorem C3_counterexample_mx_zero:
  "sint (rq_m_mx (HDiscoveryRequest 0 RootDeviceType upnp11_tokens))
     \<noteq> clamp (sint (0 :: 32 word)) 1 5 \<and>
   \<not> HDiscoveryRequest_isValid (HDiscoveryRequest 0 RootDeviceType upnp11_tokens) False"
  by (simp add: HDiscoveryRequest_def init_def HDiscoveryRequestPrivate_new_def
      HDiscoveryType_default_def HDiscoveryRequest_isValid_def clamp_def word_sless_alt)

text \<open>
  C3, amended. For a defined search target: when \<open>mx\<close> is at least 1, the request carries
  \<open>clamp mx 1 5\<close>, that is \<open>mx\<close> limited to 5, and is valid; when \<open>mx\<close> is smaller than
  1, the request is the fresh object, with MX 0, and is not valid.
\<close>

theorem C3_mx_clamped_from_one:
  assumes "usn_type st \<noteq> Undefined"
  shows "(1 \<le>s mx \<longrightarrow>
            sint (rq_m_mx (HDiscoveryRequest mx st userAgent)) = clamp (sint mx) 1 5 \<and>
            HDiscoveryRequest_isValid (HDiscoveryRequest mx st userAgent) False) \<and>
         (mx <s 1 \<longrightarrow>
            HDiscoveryRequest mx st userAgent = HDiscoveryRequestPrivate_new \<and>
            rq_m_mx (HDiscoveryRequest mx st userAgent) = 0 \<and>
            \<not> HDiscoveryRequest_isValid (HDiscoveryRequest mx st userAgent) strict)"
  using assms
  by (auto simp add: HDiscoveryRequest_def init_def HDiscoveryRequestPrivate_new_def
      HDiscoveryType_default_def HDiscoveryRequest_isValid_def clamp_def word_sless_alt
      word_sle_eq Let_def)

theorem C3_mx_clamped_from_one_witness:
  "sint (rq_m_mx (HDiscoveryRequest 7 RootDeviceType upnp11_tokens)) = 5 \<and>
   HDiscoveryRequest_isValid (HDiscoveryRequest 7 RootDeviceType upnp11_tokens) False \<and>
   HDiscoveryRequest (- 3) RootDeviceType upnp11_tokens = HDiscoveryRequestPrivate_new"
proof -
  have u: "usn_type RootDeviceType \<noteq> Undefined" by simp
  have p: "1 \<le>s (7 :: 32 word)" by (simp add: word_sle_eq)
  have n: "(- 3 :: 32 word) <s 1" by (simp add: word_sless_alt)
  from C3_mx_clamped_from_one
    [where st = RootDeviceType and mx = 7 and userAgent = upnp11_tokens, OF u] p
  have a: "sint (rq_m_mx (HDiscoveryRequest 7 RootDeviceType upnp11_tokens))
             = clamp (sint (7 :: 32 word)) 1 5"
    and b: "HDiscoveryRequest_isValid (HDiscoveryRequest 7 RootDeviceType upnp11_tokens) False"
    by blast+
  from C3_mx_clamped_from_one
    [where st = RootDeviceType and mx = "- 3" and userAgent = upnp11_tokens, OF u] n
  have c: "HDiscoveryRequest (- 3) RootDeviceType upnp11_tokens = HDiscoveryRequestPrivate_new"
    by blast
  from a b c show ?thesis by (simp add: clamp_def)
qed

text \<open>
  C4. For every cache-control max-age \<open>x\<close> and arguments that pass the validation of the
  constructor (a defined USN, a valid location, which an advertisement also wants not
  empty, and version ids that are not negative when the tokens advertise UPnP/1.1), the
  max-age stored in an advertisement and in a search response is \<open>clamp x 5 86400\<close>.
\<close>

theorem C4_max_age_clamp:
  assumes "usn_type usn \<noteq> Undefined" and "url_isValid location"
    and "0 <s upnpToken_minorVersion serverTokens \<Longrightarrow> 0 \<le>s bootId \<and> 0 \<le>s configId"
  shows "(\<not> url_isEmpty location \<longrightarrow>
           sint (av_m_cacheControlMaxAge
             (HResourceAvailable x location serverTokens usn bootId configId searchPort))
           = clamp (uint x) 5 86400) \<and>
         sint (rs_m_cacheControlMaxAge
             (HDiscoveryResponse now x date location serverTokens usn bootId configId searchPort))
           = clamp (uint x) 5 86400"
  using assms max_age_clamp [of x]
  by (auto simp add: HResourceAvailable_def HDiscoveryResponse_def Let_def word_sless_alt
      word_sle_eq simp del: mult_numeral_left_semiring_numeral)

theorem C4_max_age_clamp_witness:
  "sint (av_m_cacheControlMaxAge
      (HResourceAvailable 100000 some_location upnp11_tokens RootDeviceType 1 7 50000)) = 86400 \<and>
   sint (rs_m_cacheControlMaxAge
      (HDiscoveryResponse 0 2 None some_location upnp11_tokens RootDeviceType 1 7 50000)) = 5"
proof -
  have u: "usn_type RootDeviceType \<noteq> Undefined" by simp
  have l: "url_isValid some_location" by (simp add: some_location_def)
  have e: "\<not> url_isEmpty some_location" by (simp add: some_location_def)
  have v: "0 \<le>s (1 :: 32 word) \<and> 0 \<le>s (7 :: 32 word)" by (simp add: word_sle_eq)
  from C4_max_age_clamp [where usn = RootDeviceType and location = some_location
      and serverTokens = upnp11_tokens and bootId = 1 and configId = 7 and x = 100000
      and searchPort = 50000, OF u l v] e
  have a: "sint (av_m_cacheControlMaxAge
      (HResourceAvailable 100000 some_location upnp11_tokens RootDeviceType 1 7 50000))
      = clamp (uint (100000 :: 32 word)) 5 86400" by blast
  from C4_max_age_clamp [where usn = RootDeviceType and location = some_location
      and serverTokens = upnp11_tokens and bootId = 1 and configId = 7 and x = 2
      and searchPort = 50000 and now = 0 and date = None, OF u l v]
  have b: "sint (rs_m_cacheControlMaxAge
      (HDiscoveryResponse 0 2 None some_location upnp11_tokens RootDeviceType 1 7 50000))
      = clamp (uint (2 :: 32 word)) 5 86400" by blast
  from a b show ?thesis by (simp add: clamp_def)
qed

text \<open>
  The search port in the three messages that carry one, for arguments that pass the
  validation: an advertisement and an update store -1 for a port outside 49152..65535, a
  search response stores the port it was given.
\<close>

lemma HResourceAvailable_searchPort_dropped:
  assumes "usn_type usn \<noteq> Undefined" and "url_isValid location" and "\<not> url_isEmpty location"
    and "0 <s upnpToken_minorVersion serverTokens \<Longrightarrow> 0 \<le>s bootId \<and> 0 \<le>s configId"
    and "searchPort <s 49152 \<or> 65535 <s searchPort"
  shows "av_m_searchPort
     (HResourceAvailable x location serverTokens usn bootId configId searchPort) = - 1"
  using assms
  by (auto simp add: HResourceAvailable_def Let_def word_sless_alt word_sle_eq)

lemma HResourceUpdate_searchPort_dropped:
  assumes "usn_type usn \<noteq> Undefined" and "url_isValid location"
    and "(0 \<le>s bootId \<and> 0 \<le>s configId \<and> 0 \<le>s nextBootId) \<or>
         (bootId <s 0 \<and> configId <s 0 \<and> nextBootId <s 0)"
    and "searchPort <s 49152 \<or> 65535 <s searchPort"
  shows "up_m_searchPort
     (HResourceUpdate location usn bootId configId nextBootId searchPort) = - 1"
  using assms
  by (auto simp add: HResourceUpdate_def Let_def word_sless_alt word_sle_eq)

lemma HDiscoveryResponse_searchPort_kept:
  assumes "usn_type usn \<noteq> Undefined" and "url_isValid location"
    and "0 <s upnpToken_minorVersion serverTokens \<Longrightarrow> 0 \<le>s bootId \<and> 0 \<le>s configId"
  shows "rs_m_searchPort
     (HDiscoveryResponse now x date location serverTokens usn bootId configId searchPort)
       = searchPort"
  using assms
  by (auto simp add: HDiscoveryResponse_def Let_def word_sless_alt word_sle_eq)

text \<open>
  C5. A search port outside 49152..65535 is to be stored as absent, -1, in an
  advertisement, an update and a search response. The search response built from
  max-age 1800, a valid location, UPnP/1.1 tokens, the root device USN, boot id 1,
  config id 7 and search port 80 is valid and carries the search port 80.
\<close>

theorem C5_response_keeps_search_port_80:
  "HDiscoveryResponse_isValid
     (HDiscoveryResponse 0 1800 None some_location upnp11_tokens RootDeviceType 1 7 80) True \<and>
   rs_m_searchPort
     (HDiscoveryResponse 0 1800 None some_location upnp11_tokens RootDeviceType 1 7 80) = 80"
  by (simp add: HDiscoveryResponse_def HDiscoveryResponse_isValid_def Let_def
      HDiscoveryResponsePrivate_new_def some_location_def upnp11_tokens_def word_sless_alt)

text \<open>The advertisement built from the same arguments stores -1.\<close>

lemma HResourceAvailable_drops_search_port_80:
  "av_m_searchPort
     (HResourceAvailable 1800 some_location upnp11_tokens RootDeviceType 1 7 80) = - 1"
  by (simp add: HResourceAvailable_def Let_def HResourceAvailablePrivate_new_def
      some_location_def upnp11_tokens_def word_sless_alt)

text \<open>
  C6. When the server tokens advertise a UPnP minor version greater than 0, constructing
  an advertisement or a search response with a negative boot id or config id is refused:
  the object is the fresh one, none of the given fields is stored, and it is not valid.
\<close>

theorem C6_version_ids_required:
  assumes "0 <s upnpToken_minorVersion serverTokens" and "bootId <s 0 \<or> configId <s 0"
  shows "HResourceAvailable x location serverTokens usn bootId configId searchPort
           = HResourceAvailablePrivate_new \<and>
         \<not> HResourceAvailable_isValid
             (HResourceAvailable x location serverTokens usn bootId configId searchPort) strict \<and>
         HDiscoveryResponse now x date location serverTokens usn bootId configId searchPort
           = HDiscoveryResponsePrivate_new \<and>
         \<not> HDiscoveryResponse_isValid
             (HDiscoveryResponse now x date location serverTokens usn bootId configId searchPort)
             strict"
  using assms
  by (auto simp add: HResourceAvailable_def HDiscoveryResponse_def Let_def
      HResourceAvailable_isValid_def HDiscoveryResponse_isValid_def
      HResourceAvailablePrivate_new_def HDiscoveryResponsePrivate_new_def
      HDiscoveryType_default_def)

theorem C6_version_ids_required_witness:
  "0 <s upnpToken_minorVersion upnp11_tokens \<and>
   \<not> HResourceAvailable_isValid
       (HResourceAvailable 1800 some_location upnp11_tokens RootDeviceType (- 1) 7 50000) False \<and>
   \<not> HDiscoveryResponse_isValid
       (HDiscoveryResponse 0 1800 None some_location upnp11_tokens RootDeviceType 1 (- 1) 50000)
       False"
proof -
  have m: "0 <s upnpToken_minorVersion upnp11_tokens"
    by (simp add: upnp11_tokens_def word_sless_alt)
  have b: "(- 1 :: 32 word) <s 0 \<or> (7 :: 32 word) <s 0" by (simp add: word_sless_alt)
  have c: "(1 :: 32 word) <s 0 \<or> (- 1 :: 32 word) <s 0" by (simp add: word_sless_alt)
  from C6_version_ids_required [OF m b]
  have r: "\<not> HResourceAvailable_isValid
       (HResourceAvailable 1800 some_location upnp11_tokens RootDeviceType (- 1) 7 50000) False"
    by blast
  from C6_version_ids_required [OF m c]
  have s: "\<not> HDiscoveryResponse_isValid
       (HDiscoveryResponse 0 1800 None some_location upnp11_tokens RootDeviceType 1 (- 1) 50000)
       False"
    by blast
  from m r s show ?thesis by blast
qed

text \<open>
  C9. When the validation of the arguments fails in the constructor of an advertisement,
  of a byebye or of an update (an undefined USN, a location that is not valid or, for an
  advertisement, empty, or version ids that do not fit), no field is assigned: the object
  is the fresh one, which is not valid, and every field has its initial value.
\<close>

theorem C9_failed_validation_assigns_nothing:
  "(usn_type usn = Undefined \<or> \<not> url_isValid location \<or> url_isEmpty location \<or>
      (0 <s upnpToken_minorVersion serverTokens \<and> (bootId <s 0 \<or> configId <s 0))
    \<longrightarrow> HResourceAvailable x location serverTokens usn bootId configId searchPort
          = HResourceAvailablePrivate_new) \<and>
   (usn_type usn = Undefined \<or> (bootId <s 0 \<and> 0 \<le>s configId) \<or>
      (configId <s 0 \<and> 0 \<le>s bootId)
    \<longrightarrow> HResourceUnavailable usn sourceLocation bootId configId
          = HResourceUnavailablePrivate_new) \<and>
   (usn_type usn = Undefined \<or> \<not> url_isValid location \<or>
      (bootId <s 0 \<and> (0 \<le>s configId \<or> 0 \<le>s nextBootId)) \<or>
      (configId <s 0 \<and> (0 \<le>s bootId \<or> 0 \<le>s nextBootId)) \<or>
      (nextBootId <s 0 \<and> (0 \<le>s bootId \<or> 0 \<le>s configId))
    \<longrightarrow> HResourceUpdate location usn bootId configId nextBootId searchPort
          = HResourceUpdatePrivate_new) \<and>
   \<not> HResourceAvailable_isValid HResourceAvailablePrivate_new False \<and>
   \<not> HResourceUnavailable_isValid HResourceUnavailablePrivate_new False \<and>
   \<not> HResourceUpdate_isValid HResourceUpdatePrivate_new False"
  by (auto simp add: HResourceAvailable_def HResourceUnavailable_def HResourceUpdate_def Let_def
      HResourceAvailable_isValid_def HResourceUnavailable_isValid_def HResourceUpdate_isValid_def
      HResourceAvailablePrivate_new_def HResourceUnavailablePrivate_new_def
      HResourceUpdatePrivate_new_def HDiscoveryType_default_def)

theorem C9_failed_validation_assigns_nothing_witness:
  "HResourceAvailable 1800 QUrl_default upnp11_tokens RootDeviceType 1 7 50000
     = HResourceAvailablePrivate_new \<and>
   HResourceUnavailable RootDeviceType some_endpoint (- 1) 7 = HResourceUnavailablePrivate_new \<and>
   HResourceUpdate some_location RootDeviceType 1 7 (- 1) 50000 = HResourceUpdatePrivate_new \<and>
   av_m_cacheControlMaxAge
     (HResourceAvailable 1800 QUrl_default upnp11_tokens RootDeviceType 1 7 50000) = 0"
proof -
  have a: "\<not> url_isValid QUrl_default" by (simp add: QUrl_default_def)
  have b: "(- 1 :: 32 word) <s 0 \<and> 0 \<le>s (7 :: 32 word)"
    by (simp add: word_sless_alt word_sle_eq)
  have c: "(- 1 :: 32 word) <s 0 \<and> (0 \<le>s (1 :: 32 word) \<or> 0 \<le>s (7 :: 32 word))"
    by (simp add: word_sless_alt word_sle_eq)
  from C9_failed_validation_assigns_nothing
    [where location = QUrl_default and x = 1800 and serverTokens = upnp11_tokens
      and usn = RootDeviceType and bootId = 1 and configId = 7 and searchPort = 50000] a
  have r1: "HResourceAvailable 1800 QUrl_default upnp11_tokens RootDeviceType 1 7 50000
     = HResourceAvailablePrivate_new" by blast
  from C9_failed_validation_assigns_nothing
    [where usn = RootDeviceType and sourceLocation = some_endpoint and bootId = "- 1"
      and configId = 7] b
  have r2: "HResourceUnavailable RootDeviceType some_endpoint (- 1) 7
     = HResourceUnavailablePrivate_new" by blast
  from C9_failed_validation_assigns_nothing
    [where location = some_location and usn = RootDeviceType and bootId = 1 and configId = 7
      and nextBootId = "- 1" and searchPort = 50000] c
  have r3: "HResourceUpdate some_location RootDeviceType 1 7 (- 1) 50000
     = HResourceUpdatePrivate_new" by blast
  from r1 have r4: "av_m_cacheControlMaxAge
     (HResourceAvailable 1800 QUrl_default upnp11_tokens RootDeviceType 1 7 50000) = 0"
    by (simp add: HResourceAvailablePrivate_new_def)
  from r1 r2 r3 r4 show ?thesis by blast
qed

text \<open>
  C10. Two updates that agree on USN, location, boot id, config id and search port and
  differ in the next boot id are equal for \<^verbatim>\<open>operator==\<close>: the next boot id takes no part
  in the comparison.
\<close>

theorem C10_update_equality_ignores_nextBootId:
  assumes "up_m_usn obj1 = up_m_usn obj2" and "up_m_location obj1 = up_m_location obj2"
    and "up_m_bootId obj1 = up_m_bootId obj2" and "up_m_configId obj1 = up_m_configId obj2"
    and "up_m_searchPort obj1 = up_m_searchPort obj2"
    and "up_m_nextBootId obj1 \<noteq> up_m_nextBootId obj2"
  shows "HResourceUpdate_eq obj1 obj2"
  using assms by (simp add: HResourceUpdate_eq_def)

theorem C10_update_equality_ignores_nextBootId_witness:
  "up_m_nextBootId (HResourceUpdate some_location RootDeviceType 1 7 2 50000)
     \<noteq> up_m_nextBootId (HResourceUpdate some_location RootDeviceType 1 7 3 50000) \<and>
   HResourceUpdate_eq (HResourceUpdate some_location RootDeviceType 1 7 2 50000)
     (HResourceUpdate some_location RootDeviceType 1 7 3 50000)"
proof -
  let ?a = "HResourceUpdate some_location RootDeviceType 1 7 2 50000"
  let ?b = "HResourceUpdate some_location RootDeviceType 1 7 3 50000"
  have f: "up_m_usn ?a = up_m_usn ?b" "up_m_location ?a = up_m_location ?b"
    "up_m_bootId ?a = up_m_bootId ?b" "up_m_configId ?a = up_m_configId ?b"
    "up_m_searchPort ?a = up_m_searchPort ?b"
    by (simp_all add: HResourceUpdate_def Let_def some_location_def word_sless_alt word_sle_eq)
  have n: "up_m_nextBootId ?a \<noteq> up_m_nextBootId ?b"
    by (simp add: HResourceUpdate_def Let_def some_location_def word_sless_alt word_sle_eq)
  from n C10_update_equality_ignores_nextBootId [OF f n] show ?thesis by blast
qed

section \<open>The loop of the HTTP server\<close>

lemma loop_break:
  assumes "\<not> exiting_at_test t" and "state_connected t" and "clock_at_test t - started < 30000"
    and "iteration overridden t = (evs, Break)"
  shows "processRequest_loop overridden started (t # turns) = Some evs"
  using assms by simp

lemma request_turn_enters_loop:
  "\<not> exiting_at_test (request_turn valid method hs) \<and>
   state_connected (request_turn valid method hs) \<and>
   clock_at_test (request_turn valid method hs) = 0 \<and>
   rv (request_turn valid method hs) = Success \<and>
   \<not> exiting_after_receive (request_turn valid method hs) \<and>
   hdr_isValid (requestHeader (request_turn valid method hs)) = valid \<and>
   hdr_method (requestHeader (request_turn valid method hs)) = method \<and>
   hdr_values (requestHeader (request_turn valid method hs)) = hs"
  by (simp add: request_turn_def)

lemma call_hook_events:
  "set (fst (call_hook overridden t h mi)) \<subseteq> {Call h, Send MethotNotAllowed}"
  by (simp add: call_hook_def split: HookEffect.split)

lemma process_typed_events:
  "set (fst (process_typed overridden t h mi)) \<subseteq> {Call h, Send MethotNotAllowed}"
  using call_hook_events [of overridden t h mi] by (simp add: process_typed_def)

lemma processPost_events:
  "set (fst (processPost overridden t mi)) \<subseteq>
     {Process Post, Call incomingUnknownPostRequest, Call incomingControlRequest,
      Send MethotNotAllowed, Send BadRequest}"
  using call_hook_events [of overridden t incomingUnknownPostRequest mi]
    call_hook_events [of overridden t incomingControlRequest mi]
  by (auto simp add: processPost_def entered_def Let_def)

text \<open>
  The second condition of the chain is the value of \<^verbatim>\<open>Qt::CaseInsensitive\<close>, which is 0:
  no request enters \<^verbatim>\<open>processHead\<close>.
\<close>

lemma dispatch_never_processHead: "Process Head \<notin> set (fst (dispatch overridden t mi))"
proof -
  have g: "Process Head \<notin> set (fst (processGet overridden t mi))"
    using call_hook_events [of overridden t incomingUnknownGetRequest mi]
    by (auto simp add: processGet_def entered_def)
  have p: "Process Head \<notin> set (fst (processPost overridden t mi))"
    using processPost_events [of overridden t mi] by auto
  have n: "Process Head \<notin> set (fst (processNotifyMessage overridden t mi))"
    using process_typed_events [of overridden t incomingNotifyMessage mi]
    by (auto simp add: processNotifyMessage_def entered_def)
  have s: "Process Head \<notin> set (fst (processSubscription overridden t mi))"
    using process_typed_events [of overridden t incomingSubscriptionRequest mi]
    by (auto simp add: processSubscription_def entered_def)
  have u: "Process Head \<notin> set (fst (processUnsubscription overridden t mi))"
    using process_typed_events [of overridden t incomingUnsubscriptionRequest mi]
    by (auto simp add: processUnsubscription_def entered_def)
  from g p n s u show ?thesis
    by (simp add: dispatch_def Let_def comma_def)
qed

lemma iteration_never_processHead: "Process Head \<notin> set (fst (iteration overridden t))"
proof -
  let ?mi = "\<lparr>mi_hostInfo = header_value (requestHeader t) ''HOST'',
              mi_keepAlive = keepAlive_of_header t\<rparr>"
  obtain evs d where d: "dispatch overridden t ?mi = (evs, d)"
    by (cases "dispatch overridden t ?mi")
  with dispatch_never_processHead [of overridden t ?mi] have "Process Head \<notin> set evs" by simp
  with d show ?thesis
    by (simp add: iteration_def Let_def split: Dispatched.split sum.split)
qed

text \<open>
  The methods of the other five branches reach their \<^verbatim>\<open>process...\<close> function, letter case
  apart.
\<close>

lemma dispatch_by_method:
  "(compare (hdr_method (requestHeader t)) ''GET'' CaseInsensitive = 0 \<longrightarrow>
      hd (fst (dispatch overridden t mi)) = Process Get) \<and>
   (compare (hdr_method (requestHeader t)) ''POST'' CaseInsensitive = 0 \<longrightarrow>
      hd (fst (dispatch overridden t mi)) = Process Post) \<and>
   (compare (hdr_method (requestHeader t)) ''NOTIFY'' CaseInsensitive = 0 \<longrightarrow>
      hd (fst (dispatch overridden t mi)) = Process NotifyMessage) \<and>
   (compare (hdr_method (requestHeader t)) ''SUBSCRIBE'' CaseInsensitive = 0 \<longrightarrow>
      hd (fst (dispatch overridden t mi)) = Process Subscription) \<and>
   (compare (hdr_method (requestHeader t)) ''UNSUBSCRIBE'' CaseInsensitive = 0 \<longrightarrow>
      hd (fst (dispatch overridden t mi)) = Process Unsubscription)"
  by (simp add: dispatch_def Let_def comma_def compare_def ucstrcmp_eq_0 foldCase_def
      toLower_def processGet_def processPost_def processNotifyMessage_def
      processSubscription_def processUnsubscription_def entered_def)

text \<open>
  C1. A request with a well-formed start line and a HOST header is to be dispatched by
  its method, a HEAD request to the HEAD handler. The request
  \<^verbatim>\<open>HEAD /desc.xml\<close> with \<^verbatim>\<open>HOST: 192.0.2.10:49200\<close> does not enter \<^verbatim>\<open>processHead\<close>: it
  falls through the chain to the last branch, is answered \<^verbatim>\<open>MethotNotAllowed\<close>, and the
  loop ends.
\<close>

theorem C1_head_request_answered_405:
  "compare (hdr_method (requestHeader head_request)) ''HEAD'' CaseInsensitive = 0 \<and>
   hdr_isValid (requestHeader head_request) \<and>
   hasKey (requestHeader head_request) ''HOST'' \<and>
   iteration no_overrides head_request = ([Send MethotNotAllowed], Break) \<and>
   Process Head \<notin> set (fst (iteration no_overrides head_request)) \<and>
   processRequest_loop no_overrides 0 [head_request] = Some [Send MethotNotAllowed]"
  by (simp add: head_request_def request_turn_def iteration_def dispatch_def header_value_def
      hasKey_def toLower_def Let_def compare_def foldCase_def comma_def)

text \<open>
  C2, as the loop has it. The specification's sentence, 405 for every request whose method
  is none of the six, fails for a request that has no HOST header: \<^verbatim>\<open>FOO /desc.xml\<close>
  without HOST is answered \<^verbatim>\<open>BadRequest\<close> before its method is looked at.
\<close>

theorem C2_counterexample_without_host:
  "\<not> is_named_method (hdr_method (requestHeader foo_request_without_host)) \<and>
   processRequest_loop no_overrides 0 [foo_request_without_host] = Some [Send BadRequest] \<and>
   Send MethotNotAllowed \<notin> set (fst (iteration no_overrides foo_request_without_host))"
  by (simp add: foo_request_without_host_def request_turn_def is_named_method_def compare_def
      foldCase_def toLower_def Let_def iteration_def header_value_def)

text \<open>
  C2, amended. For every request that was received in a turn of the loop, whose start
  line is well-formed and whose HOST header is not empty, while the server is not exiting,
  and whose method is none of GET, HEAD, POST, NOTIFY, SUBSCRIBE and UNSUBSCRIBE, letter
  case apart: the server answers \<^verbatim>\<open>MethotNotAllowed\<close>, nothing else, and the loop ends,
  whatever turns would follow.
\<close>

theorem C2_unknown_method_405:
  assumes "\<not> exiting_at_test t" and "state_connected t" and "clock_at_test t - started < 30000"
    and "rv t = Success" and "hdr_isValid (requestHeader t)"
    and "header_value (requestHeader t) ''HOST'' \<noteq> []"
    and "\<not> exiting_after_receive t"
    and "\<not> is_named_method (hdr_method (requestHeader t))"
  shows "iteration overridden t = ([Send MethotNotAllowed], Break) \<and>
         processRequest_loop overridden started (t # turns) = Some [Send MethotNotAllowed]"
proof -
  let ?mi = "\<lparr>mi_hostInfo = header_value (requestHeader t) ''HOST'',
              mi_keepAlive = keepAlive_of_header t\<rparr>"
  from assms(8) have "dispatch overridden t ?mi = ([Send MethotNotAllowed], NotAllowed)"
    by (simp add: dispatch_def is_named_method_def Let_def comma_def)
  with assms(4-7) have i: "iteration overridden t = ([Send MethotNotAllowed], Break)"
    by (simp add: iteration_def Let_def)
  from i loop_break [OF assms(1-3) i] show ?thesis by blast
qed

theorem C2_unknown_method_405_witness:
  "\<not> is_named_method (hdr_method (requestHeader put_request)) \<and>
   header_value (requestHeader put_request) ''HOST'' \<noteq> [] \<and>
   iteration no_overrides put_request = ([Send MethotNotAllowed], Break) \<and>
   processRequest_loop no_overrides 0 [put_request, head_request] = Some [Send MethotNotAllowed]"
proof -
  note e = request_turn_enters_loop [of True "''PUT''" "[(''Host'', ''192.0.2.10:49200'')]",
      folded put_request_def]
  have h: "header_value (requestHeader put_request) ''HOST'' \<noteq> []"
    by (simp add: header_value_def e toLower_def Let_def)
  have m: "\<not> is_named_method (hdr_method (requestHeader put_request))"
    by (simp add: e is_named_method_def compare_def foldCase_def toLower_def Let_def)
  have "iteration no_overrides put_request = ([Send MethotNotAllowed], Break) \<and>
      processRequest_loop no_overrides 0 (put_request # [head_request])
        = Some [Send MethotNotAllowed]"
    by (rule C2_unknown_method_405 [OF _ _ _ _ _ h _ m]) (simp_all add: e)
  with h m show ?thesis by blast
qed

text \<open>
  C7. For every request received in a turn of the loop whose start line is ill-formed or
  whose HOST header is missing, the server sends \<^verbatim>\<open>BadRequest\<close>, nothing else, and the loop
  ends, whatever turns would follow; \<^verbatim>\<open>processRequest\<close> returns, and a socket that is
  still connected is disconnected as its last act.
\<close>

theorem C7_bad_request_closes:
  assumes "\<not> exiting_at_test t" and "state_connected t" and "clock_at_test t - started < 30000"
    and "rv t = Success"
    and "\<not> hdr_isValid (requestHeader t) \<or> \<not> hasKey (requestHeader t) ''HOST''"
  shows "iteration overridden t = ([Send BadRequest], Break) \<and>
         processRequest_loop overridden started (t # turns) = Some [Send BadRequest] \<and>
         processRequest overridden started (t # turns) connected_after flushes
           = Some (Send BadRequest # closing connected_after flushes) \<and>
         (connected_after \<longrightarrow>
            last (Send BadRequest # closing connected_after flushes) = DisconnectFromHost)"
proof -
  from assms(5)
  have "\<not> hdr_isValid (requestHeader t) \<or> header_value (requestHeader t) ''HOST'' = []"
    using value_of_without_key [of "hdr_values (requestHeader t)" "''HOST''"]
    by (auto simp add: hasKey_def header_value_def)
  with assms(4) have i: "iteration overridden t = ([Send BadRequest], Break)"
    by (auto simp add: iteration_def Let_def)
  from loop_break [OF assms(1-3) i]
  have l: "processRequest_loop overridden started (t # turns) = Some [Send BadRequest]" .
  from l have p: "processRequest overridden started (t # turns) connected_after flushes
           = Some (Send BadRequest # closing connected_after flushes)"
    by (simp add: processRequest_def)
  have c: "connected_after \<longrightarrow>
            last (Send BadRequest # closing connected_after flushes) = DisconnectFromHost"
    by (simp add: closing_def)
  from i l p c show ?thesis by blast
qed

theorem C7_bad_request_closes_witness:
  "\<not> hasKey (requestHeader get_request_without_host) ''HOST'' \<and>
   \<not> hdr_isValid (requestHeader ill_formed_request) \<and>
   processRequest no_overrides 0 [get_request_without_host, put_request] True 2
     = Some [Send BadRequest, WaitForBytesWritten, WaitForBytesWritten, DisconnectFromHost] \<and>
   processRequest no_overrides 0 [ill_formed_request] False 0 = Some [Send BadRequest]"
proof -
  note g = request_turn_enters_loop [of True "''GET''" "[(''Accept'', ''*/*'')]",
      folded get_request_without_host_def]
  note i = request_turn_enters_loop [of False "[]" "[(''HOST'', ''192.0.2.10:49200'')]",
      folded ill_formed_request_def]
  have k: "\<not> hasKey (requestHeader get_request_without_host) ''HOST''"
    by (simp add: hasKey_def g toLower_def Let_def)
  have v: "\<not> hdr_isValid (requestHeader ill_formed_request)"
    by (simp add: i)
  have "\<not> hdr_isValid (requestHeader get_request_without_host) \<or>
      \<not> hasKey (requestHeader get_request_without_host) ''HOST''"
    using k by simp
  from C7_bad_request_closes [where t = get_request_without_host and started = 0
        and overridden = no_overrides and turns = "[put_request]" and connected_after = True
        and flushes = 2, OF _ _ _ _ this]
  have a: "processRequest no_overrides 0 (get_request_without_host # [put_request]) True 2
      = Some (Send BadRequest # closing True 2)"
    by (simp add: g)
  have "\<not> hdr_isValid (requestHeader ill_formed_request) \<or>
      \<not> hasKey (requestHeader ill_formed_request) ''HOST''"
    using v by simp
  from C7_bad_request_closes [where t = ill_formed_request and started = 0
        and overridden = no_overrides and turns = "[]" and connected_after = False
        and flushes = 0, OF _ _ _ _ this]
  have b: "processRequest no_overrides 0 (ill_formed_request # []) False 0
      = Some (Send BadRequest # closing False 0)"
    by (simp add: i)
  have c: "closing True 2 = [WaitForBytesWritten, WaitForBytesWritten, DisconnectFromHost]"
    by (simp add: closing_def numeral_2_eq_2)
  have d: "closing False 0 = []" by (simp add: closing_def)
  from k v a b c d show ?thesis by simp
qed

section \<open>The action proxy\<close>

lemma in_flight_snoc: "in_flight (w @ [e]) = on_wire (in_flight w) e"
  by (simp add: in_flight_def)

lemma sent_of_append: "sent_of (w @ v) = sent_of w @ sent_of v"
  by (induction w rule: sent_of.induct) simp_all

lemma submitted_append: "submitted (evs @ es) = submitted evs @ submitted es"
  by (induction evs rule: submitted.induct) simp_all

lemma take_snoc_bound:
  assumes "\<forall>n. length (in_flight (take n w)) \<le> 1" and "length (in_flight (w @ [e])) \<le> 1"
  shows "\<forall>n. length (in_flight (take n (w @ [e]))) \<le> 1"
proof
  fix n
  show "length (in_flight (take n (w @ [e]))) \<le> 1"
  proof (cases "n \<le> length w")
    case True
    then show ?thesis using assms(1) by simp
  next
    case False
    then show ?thesis using assms(2) by simp
  qed
qed

lemma proxy_inv_new: "proxy_inv HActionProxy_new"
  by (simp add: proxy_inv_def HActionProxy_new_def in_flight_def)

lemma proxy_inv_send:
  assumes "proxy_inv s" and "m_reply s = None"
  shows "proxy_inv (send (s\<lparr>m_invocations := q\<rparr>) iv)"
proof -
  from assms have f: "in_flight (wire s) = []"
    and b: "\<forall>n. length (in_flight (take n (wire s))) \<le> 1"
    by (simp_all add: proxy_inv_def)
  from f have "length (in_flight (wire s @ [Sent iv])) \<le> 1" by (simp add: in_flight_snoc)
  with b have "\<forall>n. length (in_flight (take n (wire s @ [Sent iv]))) \<le> 1"
    by (rule take_snoc_bound)
  with f show ?thesis by (simp add: proxy_inv_def send_def in_flight_snoc)
qed

lemma proxy_inv_done:
  assumes "proxy_inv s" and "m_reply s = Some iv"
  shows "proxy_inv (s\<lparr>m_reply := None, wire := wire s @ [Done iv], m_invocations := []\<rparr>)"
proof -
  from assms have f: "in_flight (wire s) = [iv]"
    and b: "\<forall>n. length (in_flight (take n (wire s))) \<le> 1"
    by (simp_all add: proxy_inv_def)
  from f have "length (in_flight (wire s @ [Done iv])) \<le> 1" by (simp add: in_flight_snoc)
  with b have "\<forall>n. length (in_flight (take n (wire s @ [Done iv]))) \<le> 1"
    by (rule take_snoc_bound)
  with f show ?thesis by (simp add: proxy_inv_def in_flight_snoc)
qed

lemma proxy_inv_step: "proxy_inv s \<Longrightarrow> proxy_inv (proxy_step s e)"
proof (cases e)
  case (BeginInvoke iv)
  assume i: "proxy_inv s"
  show ?thesis
  proof (cases "m_reply s")
    case None
    with i have "m_invocations s = []" by (simp add: proxy_inv_def)
    then have "s\<lparr>m_invocations := []\<rparr> = s" by simp
    with proxy_inv_send [OF i None, of "[]" iv] BeginInvoke None show ?thesis
      by (simp add: beginInvoke_def invocationInProgress_def)
  next
    case (Some a)
    with i BeginInvoke show ?thesis
      by (simp add: beginInvoke_def invocationInProgress_def proxy_inv_def)
  qed
next
  case Finished
  assume i: "proxy_inv s"
  show ?thesis
  proof (cases "m_reply s")
    case None
    with i Finished show ?thesis by (simp add: invocationInProgress_def)
  next
    case (Some a)
    let ?d = "s\<lparr>m_reply := None, wire := wire s @ [Done a], m_invocations := []\<rparr>"
    have d: "proxy_inv ?d" by (rule proxy_inv_done [OF i Some])
    show ?thesis
    proof (cases "m_invocations s")
      case Nil
      then have "s\<lparr>m_reply := None, wire := wire s @ [Done a]\<rparr> = ?d" by simp
      with d Nil Some Finished show ?thesis
        by (simp add: invocationInProgress_def invocationDone_def deleteReply_def
            invokeCompleted_def proxy_inv_def)
    next
      case (Cons iv waiting)
      have "proxy_inv (send (?d\<lparr>m_invocations := waiting\<rparr>) iv)"
        by (rule proxy_inv_send [OF d]) simp
      with Cons Some Finished show ?thesis
        by (simp add: invocationInProgress_def invocationDone_def deleteReply_def
            invokeCompleted_def send_def proxy_inv_def)
    qed
  qed
qed

lemma proxy_inv_run: "proxy_inv (proxy_run evs)"
  unfolding proxy_run_def
  by (induction evs rule: rev_induct) (simp_all add: proxy_inv_new proxy_inv_step)

lemma fifo_step:
  assumes "proxy_inv s"
  shows "sent_of (wire (proxy_step s e)) @ m_invocations (proxy_step s e)
     = sent_of (wire s) @ m_invocations s @ submitted [e]"
proof (cases e)
  case (BeginInvoke iv)
  with assms show ?thesis
    by (cases "m_reply s")
      (simp_all add: beginInvoke_def invocationInProgress_def send_def sent_of_append
        proxy_inv_def)
next
  case Finished
  then show ?thesis
    by (cases "m_reply s"; cases "m_invocations s")
      (simp_all add: invocationInProgress_def invocationDone_def deleteReply_def
        invokeCompleted_def send_def sent_of_append)
qed

lemma fifo_run:
  "sent_of (wire (proxy_run evs)) @ m_invocations (proxy_run evs) = submitted evs"
proof (induction evs rule: rev_induct)
  case Nil
  show ?case by (simp add: proxy_run_def HActionProxy_new_def)
next
  case (snoc e evs)
  have "proxy_run (evs @ [e]) = proxy_step (proxy_run evs) e"
    by (simp add: proxy_run_def)
  with fifo_step [OF proxy_inv_run, of evs e] snoc show ?case
    by (simp add: submitted_append)
qed

text \<open>
  A reply that finishes takes the head of the queue off and puts it on the connection; with
  an empty queue the proxy is idle again, and the next submission is sent at once.
\<close>

lemma completion_sends_head:
  assumes "m_reply s = Some a" and "m_invocations s = nxt # waiting"
  shows "wire (proxy_step s Finished) = wire s @ [Done a, Sent nxt] \<and>
         m_invocations (proxy_step s Finished) = waiting \<and>
         m_reply (proxy_step s Finished) = Some nxt"
  using assms
  by (simp add: invocationInProgress_def invocationDone_def deleteReply_def
      invokeCompleted_def send_def)

lemma completion_with_empty_queue:
  assumes "m_reply s = Some a" and "m_invocations s = []"
  shows "wire (proxy_step s Finished) = wire s @ [Done a] \<and>
         m_invocations (proxy_step s Finished) = [] \<and>
         \<not> invocationInProgress (proxy_step s Finished)"
  using assms
  by (simp add: invocationInProgress_def invocationDone_def deleteReply_def
      invokeCompleted_def)

lemma idle_proxy_sends_at_once:
  assumes "\<not> invocationInProgress s"
  shows "wire (proxy_step s (BeginInvoke iv)) = wire s @ [Sent iv] \<and>
         m_reply (proxy_step s (BeginInvoke iv)) = Some iv"
  using assms by (simp add: beginInvoke_def send_def)

lemma queue_after_completion:
  assumes "proxy_inv s"
  shows "m_invocations (proxy_step s Finished) = tl (m_invocations s)"
proof (cases "m_reply s")
  case None
  with assms show ?thesis by (simp add: proxy_inv_def invocationInProgress_def)
next
  case (Some a)
  then show ?thesis
    by (cases "m_invocations s")
      (simp_all add: invocationInProgress_def invocationDone_def deleteReply_def
        invokeCompleted_def send_def)
qed

lemma queue_after_completions:
  assumes "proxy_inv s"
  shows "proxy_inv (foldl proxy_step s (replicate k Finished)) \<and>
         m_invocations (foldl proxy_step s (replicate k Finished)) = drop k (m_invocations s)"
proof (induction k)
  case 0
  from assms show ?case by simp
next
  case (Suc k)
  let ?s = "foldl proxy_step s (replicate k Finished)"
  have r: "replicate (Suc k) Finished = replicate k Finished @ [Finished]"
    by (simp add: replicate_append_same)
  from Suc have i: "proxy_inv ?s" and q: "m_invocations ?s = drop k (m_invocations s)"
    by simp_all
  have "m_invocations (proxy_step ?s Finished) = tl (drop k (m_invocations s))"
    using queue_after_completion [OF i] q by simp
  also have "\<dots> = drop (Suc k) (m_invocations s)"
    by (simp add: drop_Suc tl_drop)
  finally have "m_invocations (proxy_step ?s Finished) = drop (Suc k) (m_invocations s)" .
  with proxy_inv_step [OF i, of Finished] show ?case
    by (simp only: r foldl_append foldl.simps)
qed

lemma submitted_completions: "submitted (replicate k Finished) = []"
  by (induction k) simp_all

lemma all_sent_after_completions:
  "sent_of (wire (proxy_run (evs @ replicate (length (m_invocations (proxy_run evs))) Finished)))
     = submitted evs"
proof -
  let ?k = "length (m_invocations (proxy_run evs))"
  have e: "proxy_run (evs @ replicate ?k Finished)
      = foldl proxy_step (proxy_run evs) (replicate ?k Finished)"
    by (simp add: proxy_run_def)
  have "m_invocations (proxy_run (evs @ replicate ?k Finished)) = []"
    using queue_after_completions [OF proxy_inv_run, of evs ?k] e by simp
  then show ?thesis
    using fifo_run [of "evs @ replicate ?k Finished"]
    by (simp add: submitted_append submitted_completions)
qed

text \<open>
  C8. Whatever invocations are submitted to a proxy and whenever replies finish: at every
  moment of the log of the control connection at most one invocation is in flight; the
  invocations go on the connection in the order of their submission, those not yet sent
  waiting in the queue in that order; and an invocation submitted while another is in
  progress is appended to the queue and nothing is sent. The queued invocations are sent
  when the one in flight completes: the reply that finishes is followed on the connection
  by the head of the queue, which leaves the queue and is the one in flight; with an empty
  queue the proxy is idle after the reply, and an idle proxy sends a submission at once;
  and once as many replies have finished as invocations were waiting, every invocation
  submitted has been sent.
\<close>

theorem C8_one_invocation_in_flight:
  "length (in_flight (take n (wire (proxy_run evs)))) \<le> 1 \<and>
   sent_of (wire (proxy_run evs)) @ m_invocations (proxy_run evs) = submitted evs \<and>
   (invocationInProgress (proxy_run evs) \<longrightarrow>
      wire (proxy_step (proxy_run evs) (BeginInvoke iv)) = wire (proxy_run evs) \<and>
      m_invocations (proxy_step (proxy_run evs) (BeginInvoke iv))
        = m_invocations (proxy_run evs) @ [iv]) \<and>
   (m_reply (proxy_run evs) = Some a \<and> m_invocations (proxy_run evs) = nxt # waiting \<longrightarrow>
      wire (proxy_run (evs @ [Finished])) = wire (proxy_run evs) @ [Done a, Sent nxt] \<and>
      m_invocations (proxy_run (evs @ [Finished])) = waiting \<and>
      m_reply (proxy_run (evs @ [Finished])) = Some nxt) \<and>
   (m_reply (proxy_run evs) = Some a \<and> m_invocations (proxy_run evs) = [] \<longrightarrow>
      wire (proxy_run (evs @ [Finished])) = wire (proxy_run evs) @ [Done a] \<and>
      \<not> invocationInProgress (proxy_run (evs @ [Finished]))) \<and>
   (\<not> invocationInProgress (proxy_run evs) \<longrightarrow>
      wire (proxy_run (evs @ [BeginInvoke iv])) = wire (proxy_run evs) @ [Sent iv]) \<and>
   sent_of (wire (proxy_run (evs @ replicate (length (m_invocations (proxy_run evs))) Finished)))
     = submitted evs"
proof -
  let ?s = "proxy_run evs"
  have f: "proxy_run (evs @ [Finished]) = proxy_step ?s Finished"
    and b: "proxy_run (evs @ [BeginInvoke iv]) = proxy_step ?s (BeginInvoke iv)"
    by (simp_all add: proxy_run_def)
  have c1: "length (in_flight (take n (wire ?s))) \<le> 1"
    using proxy_inv_run [of evs] by (simp add: proxy_inv_def)
  have c2: "sent_of (wire ?s) @ m_invocations ?s = submitted evs"
    by (rule fifo_run)
  have c3: "invocationInProgress ?s \<longrightarrow>
      wire (proxy_step ?s (BeginInvoke iv)) = wire ?s \<and>
      m_invocations (proxy_step ?s (BeginInvoke iv)) = m_invocations ?s @ [iv]"
    by (simp add: beginInvoke_def)
  have c4: "m_reply ?s = Some a \<and> m_invocations ?s = nxt # waiting \<longrightarrow>
      wire (proxy_run (evs @ [Finished])) = wire ?s @ [Done a, Sent nxt] \<and>
      m_invocations (proxy_run (evs @ [Finished])) = waiting \<and>
      m_reply (proxy_run (evs @ [Finished])) = Some nxt"
    using completion_sends_head [of ?s a nxt waiting] by (simp only: f) blast
  have c5: "m_reply ?s = Some a \<and> m_invocations ?s = [] \<longrightarrow>
      wire (proxy_run (evs @ [Finished])) = wire ?s @ [Done a] \<and>
      \<not> invocationInProgress (proxy_run (evs @ [Finished]))"
    using completion_with_empty_queue [of ?s a] by (simp only: f) blast
  have c6: "\<not> invocationInProgress ?s \<longrightarrow>
      wire (proxy_run (evs @ [BeginInvoke iv])) = wire ?s @ [Sent iv]"
    using idle_proxy_sends_at_once [of ?s iv] by (simp only: b) blast
  have c7: "sent_of (wire (proxy_run (evs @ replicate (length (m_invocations ?s)) Finished)))
     = submitted evs"
    by (rule all_sent_after_completions)
  from c1 c2 c3 c4 c5 c6 c7 show ?thesis by blast
qed

theorem C8_one_invocation_in_flight_witness:
  "invocationInProgress (proxy_run [BeginInvoke 1, BeginInvoke 2]) \<and>
   m_invocations (proxy_step (proxy_run [BeginInvoke 1, BeginInvoke 2]) (BeginInvoke 3)) = [2, 3] \<and>
   wire (proxy_step (proxy_run [BeginInvoke 1, BeginInvoke 2]) (BeginInvoke 3)) = [Sent 1] \<and>
   wire (proxy_run [BeginInvoke 1, BeginInvoke 2, Finished]) = [Sent 1, Done 1, Sent 2] \<and>
   m_invocations (proxy_run [BeginInvoke 1, BeginInvoke 2, Finished]) = [] \<and>
   wire (proxy_run [BeginInvoke 1, BeginInvoke 2, Finished, Finished])
     = [Sent 1, Done 1, Sent 2, Done 2] \<and>
   \<not> invocationInProgress (proxy_run [BeginInvoke 1, BeginInvoke 2, Finished, Finished]) \<and>
   wire (proxy_run [BeginInvoke 1, BeginInvoke 2, Finished, Finished, BeginInvoke 3])
     = [Sent 1, Done 1, Sent 2, Done 2, Sent 3]"
proof -
  let ?e = "[BeginInvoke 1, BeginInvoke 2]"
  let ?s = "proxy_run ?e"
  have r: "m_reply ?s = Some 1" and q: "m_invocations ?s = [2]" and w: "wire ?s = [Sent 1]"
    by (simp_all add: proxy_run_def HActionProxy_new_def beginInvoke_def
        invocationInProgress_def send_def)
  from r have p: "invocationInProgress ?s" by (simp add: invocationInProgress_def)
  from C8_one_invocation_in_flight [of 0 ?e 3 1 2 "[]"] p r q
  have s3: "wire (proxy_step ?s (BeginInvoke 3)) = wire ?s \<and>
        m_invocations (proxy_step ?s (BeginInvoke 3)) = m_invocations ?s @ [3]"
    and f1: "wire (proxy_run (?e @ [Finished])) = wire ?s @ [Done 1, Sent 2] \<and>
        m_invocations (proxy_run (?e @ [Finished])) = [] \<and>
        m_reply (proxy_run (?e @ [Finished])) = Some 2"
    by blast+
  let ?e1 = "[BeginInvoke 1, BeginInvoke 2, Finished]"
  from f1 w have w1: "wire (proxy_run ?e1) = [Sent 1, Done 1, Sent 2]"
    and q1: "m_invocations (proxy_run ?e1) = []" and r1: "m_reply (proxy_run ?e1) = Some 2"
    by simp_all
  from C8_one_invocation_in_flight [of 0 ?e1 3 2 0 "[]"] r1 q1
  have f2: "wire (proxy_run (?e1 @ [Finished])) = wire (proxy_run ?e1) @ [Done 2] \<and>
        \<not> invocationInProgress (proxy_run (?e1 @ [Finished]))"
    by blast
  let ?e2 = "[BeginInvoke 1, BeginInvoke 2, Finished, Finished]"
  from f2 w1 have w2: "wire (proxy_run ?e2) = [Sent 1, Done 1, Sent 2, Done 2]"
    and i2: "\<not> invocationInProgress (proxy_run ?e2)"
    by simp_all
  from C8_one_invocation_in_flight [of 0 ?e2 3 0 0 "[]"] i2
  have "wire (proxy_run (?e2 @ [BeginInvoke 3])) = wire (proxy_run ?e2) @ [Sent 3]"
    by blast
  with w2 have w3: "wire (proxy_run [BeginInvoke 1, BeginInvoke 2, Finished, Finished,
      BeginInvoke 3]) = [Sent 1, Done 1, Sent 2, Done 2, Sent 3]"
    by simp
  from p s3 w q w1 q1 w2 i2 w3 show ?thesis by simp
qed

end
